theory Spec2Isabelle
  imports Main "HOL-Library.Word"
begin

unbundle bit_operations_syntax

section \<open>Plugin lists of the Grafana operator (api/v1beta1/plugin\_list.go)\<close>

text \<open>
  A Go \<open>string\<close> is a sequence of bytes, and so is an Isabelle \<open>string\<close> (a list of
  8-bit characters), so strings are modelled as they are. A slice of structs is a list of
  records; \<open>nil\<close> and the empty slice are both the empty list (the code never tells them
  apart: it only ranges over slices and appends to them).
\<close>

subsection \<open>Data model\<close>

record GrafanaPlugin =
  Name :: string
  Version :: string

type_synonym PluginList = "GrafanaPlugin list"

subsection \<open>The semantic-version library\<close>

text \<open>
  Modelled from the spec: the package \<open>github.com/blang/semver\<close> (\<open>Parse\<close>, \<open>Make\<close>,
  \<open>Compare\<close>) is imported by plugin\_list.go and is not part of the repository. The
  spec asks for \<open>MAJOR.MINOR.PATCH[-prerelease][+build]\<close> with the standard precedence
  (major, minor, patch, then the pre-release rules, build metadata ignored). The
  definitions below follow the library's parser and comparison step by step; every early
  return of the parser is a value of \<open>error\<close>. The general theorems about the plugin
  list never unfold the parser: they hold for any parser that fails or yields a version.
\<close>

datatype error =
    VersionStringEmpty
  | NoMajorMinorPatch
  | InvalidCharacters string string
  | LeadingZeroes string string
  | NumError string
  | PrereleaseEmpty
  | BuildMetaDataEmpty

record PRVersion =
  VersionStr :: string
  VersionNum :: nat
  IsNum :: bool

record SemVersion =
  Major :: nat
  Minor :: nat
  Patch :: nat
  Pre :: "PRVersion list"
  Build :: "string list"

definition numbers :: string where
  "numbers = ''0123456789''"

definition alphas :: string where
  "alphas = ''abcdefghijklmnopqrstuvwxyzABCDEFGHIJKLMNOPQRSTUVWXYZ-''"

definition alphanum :: string where
  "alphanum = alphas @ numbers"

definition containsOnly :: "string \<Rightarrow> string \<Rightarrow> bool" where
  "containsOnly s cs = list_all (\<lambda>c. c \<in> set cs) s"

definition hasLeadingZeroes :: "string \<Rightarrow> bool" where
  "hasLeadingZeroes s = (case s of c # _ # _ \<Rightarrow> c = CHR ''0'' | _ \<Rightarrow> False)"

text \<open>\<open>strings.IndexRune\<close> for an ASCII rune: the index of its first occurrence.\<close>

fun strings_IndexRune :: "string \<Rightarrow> char \<Rightarrow> nat option" where
  "strings_IndexRune [] r = None"
| "strings_IndexRune (c # cs) r =
     (if c = r then Some 0 else map_option Suc (strings_IndexRune cs r))"

text \<open>
  \<open>strings.SplitN(s, sep, n)\<close> for a one-byte separator: at most \<open>n\<close> pieces, the last
  one the unsplit rest. \<open>strings.Split\<close> is \<open>SplitN\<close> with one piece more than there are
  separators.
\<close>

fun strings_SplitN :: "string \<Rightarrow> char \<Rightarrow> nat \<Rightarrow> string list" where
  "strings_SplitN s sep 0 = []"
| "strings_SplitN s sep (Suc 0) = [s]"
| "strings_SplitN s sep (Suc (Suc n)) =
     (case strings_IndexRune s sep of
        None \<Rightarrow> [s]
      | Some i \<Rightarrow> take i s # strings_SplitN (drop (Suc i) s) sep (Suc n))"

definition strings_Split :: "string \<Rightarrow> char \<Rightarrow> string list" where
  "strings_Split s sep = strings_SplitN s sep (Suc (count_list s sep))"

text \<open>
  \<open>strconv.ParseUint(s, 10, 64)\<close>: a non-empty string of decimal digits whose value
  fits 64 bits; anything else is a \<open>NumError\<close>.
\<close>

definition digit_val :: "char \<Rightarrow> nat" where
  "digit_val c = of_char c - of_char CHR ''0''"

definition ParseUint :: "string \<Rightarrow> error + nat" where
  "ParseUint s =
     (if s = [] \<or> \<not> containsOnly s numbers then Inl (NumError s)
      else let n = foldl (\<lambda>acc c. 10 * acc + digit_val c) 0 s
           in if n < 2 ^ 64 then Inr n else Inl (NumError s))"

definition NewPRVersion :: "string \<Rightarrow> error + PRVersion" where
  "NewPRVersion s =
     (if s = [] then Inl PrereleaseEmpty
      else if containsOnly s numbers then
        (if hasLeadingZeroes s then Inl (LeadingZeroes ''prerelease'' s)
         else case ParseUint s of
                Inl err \<Rightarrow> Inl err
              | Inr num \<Rightarrow> Inr \<lparr>VersionStr = [], VersionNum = num, IsNum = True\<rparr>)
      else if containsOnly s alphanum then
        Inr \<lparr>VersionStr = s, VersionNum = 0, IsNum = False\<rparr>
      else Inl (InvalidCharacters ''prerelease'' s))"

fun parse_prerelease :: "string list \<Rightarrow> PRVersion list \<Rightarrow> error + PRVersion list" where
  "parse_prerelease [] pre = Inr pre"
| "parse_prerelease (prstr # rest) pre =
     (case NewPRVersion prstr of
        Inl err \<Rightarrow> Inl err
      | Inr parsedPR \<Rightarrow> parse_prerelease rest (pre @ [parsedPR]))"

fun parse_build :: "string list \<Rightarrow> string list \<Rightarrow> error + string list" where
  "parse_build [] build = Inr build"
| "parse_build (str # rest) build =
     (if str = [] then Inl BuildMetaDataEmpty
      else if \<not> containsOnly str alphanum then Inl (InvalidCharacters ''build'' str)
      else parse_build rest (build @ [str]))"

definition parse_number :: "string \<Rightarrow> string \<Rightarrow> error + nat" where
  "parse_number field s =
     (if \<not> containsOnly s numbers then Inl (InvalidCharacters field s)
      else if hasLeadingZeroes s then Inl (LeadingZeroes field s)
      else ParseUint s)"

definition semver_Parse :: "string \<Rightarrow> error + SemVersion" where
  "semver_Parse s =
     (if s = [] then Inl VersionStringEmpty
      else case strings_SplitN s CHR ''.'' 3 of
        [p0, p1, p2] \<Rightarrow>
          (case parse_number ''major'' p0 of
             Inl err \<Rightarrow> Inl err
           | Inr major \<Rightarrow>
          (case parse_number ''minor'' p1 of
             Inl err \<Rightarrow> Inl err
           | Inr minor \<Rightarrow>
             let (build, patchStr1) =
                   (case strings_IndexRune p2 CHR ''+'' of
                      None \<Rightarrow> ([], p2)
                    | Some buildIndex \<Rightarrow>
                        (strings_Split (drop (Suc buildIndex) p2) CHR ''.'', take buildIndex p2));
                 (prerelease, patchStr) =
                   (case strings_IndexRune patchStr1 CHR ''-'' of
                      None \<Rightarrow> ([], patchStr1)
                    | Some preIndex \<Rightarrow>
                        (strings_Split (drop (Suc preIndex) patchStr1) CHR ''.'',
                         take preIndex patchStr1))
             in (case parse_number ''patch'' patchStr of
                   Inl err \<Rightarrow> Inl err
                 | Inr patch \<Rightarrow>
                (case parse_prerelease prerelease [] of
                   Inl err \<Rightarrow> Inl err
                 | Inr pre \<Rightarrow>
                (case parse_build build [] of
                   Inl err \<Rightarrow> Inl err
                 | Inr bld \<Rightarrow>
                     Inr \<lparr>Major = major, Minor = minor, Patch = patch,
                          Pre = pre, Build = bld\<rparr>)))))
      | _ \<Rightarrow> Inl NoMajorMinorPatch)"

definition semver_Make :: "string \<Rightarrow> error + SemVersion" where
  "semver_Make s = semver_Parse s"

text \<open>Go compares strings byte by byte.\<close>

fun string_less :: "string \<Rightarrow> string \<Rightarrow> bool" where
  "string_less [] [] = False"
| "string_less [] (y # ys) = True"
| "string_less (x # xs) [] = False"
| "string_less (x # xs) (y # ys) =
     (if x = y then string_less xs ys else (of_char x :: nat) < of_char y)"

definition PRVersion_Compare :: "PRVersion \<Rightarrow> PRVersion \<Rightarrow> int" where
  "PRVersion_Compare v o' =
     (if IsNum v \<and> \<not> IsNum o' then - 1
      else if \<not> IsNum v \<and> IsNum o' then 1
      else if IsNum v \<and> IsNum o' then
        (if VersionNum v = VersionNum o' then 0
         else if VersionNum v > VersionNum o' then 1 else - 1)
      else
        (if VersionStr v = VersionStr o' then 0
         else if string_less (VersionStr o') (VersionStr v) then 1 else - 1))"

fun Pre_Compare :: "PRVersion list \<Rightarrow> PRVersion list \<Rightarrow> int" where
  "Pre_Compare [] [] = 0"
| "Pre_Compare [] (y # ys) = - 1"
| "Pre_Compare (x # xs) [] = 1"
| "Pre_Compare (x # xs) (y # ys) =
     (let comp = PRVersion_Compare x y
      in if comp = 0 then Pre_Compare xs ys else if comp = 1 then 1 else - 1)"

definition Compare :: "SemVersion \<Rightarrow> SemVersion \<Rightarrow> int" where
  "Compare v o' =
     (if Major v \<noteq> Major o' then (if Major v > Major o' then 1 else - 1)
      else if Minor v \<noteq> Minor o' then (if Minor v > Minor o' then 1 else - 1)
      else if Patch v \<noteq> Patch o' then (if Patch v > Patch o' then 1 else - 1)
      else if Pre v = [] \<and> Pre o' = [] then 0
      else if Pre v = [] \<and> Pre o' \<noteq> [] then 1
      else if Pre v \<noteq> [] \<and> Pre o' = [] then - 1
      else Pre_Compare (Pre v) (Pre o'))"

subsection \<open>Membership queries\<close>

fun HasSomeVersionOf :: "PluginList \<Rightarrow> GrafanaPlugin \<Rightarrow> bool" where
  "HasSomeVersionOf [] plugin = False"
| "HasSomeVersionOf (listedPlugin # rest) plugin =
     (if Name listedPlugin = Name plugin then True else HasSomeVersionOf rest plugin)"

fun HasExactVersionOf :: "PluginList \<Rightarrow> GrafanaPlugin \<Rightarrow> bool" where
  "HasExactVersionOf [] plugin = False"
| "HasExactVersionOf (listedPlugin # rest) plugin =
     (if Name listedPlugin = Name plugin \<and> Version listedPlugin = Version plugin then True
      else HasExactVersionOf rest plugin)"

text \<open>
  \<open>HasNewerVersionOf\<close> returns \<open>(bool, error)\<close>; with an error the boolean is
  \<open>false\<close> and carries nothing, so the result is a sum.
\<close>

fun HasNewerVersionOf :: "PluginList \<Rightarrow> GrafanaPlugin \<Rightarrow> error + bool" where
  "HasNewerVersionOf [] plugin = Inr False"
| "HasNewerVersionOf (listedPlugin # rest) plugin =
     (if Name listedPlugin \<noteq> Name plugin then HasNewerVersionOf rest plugin
      else case semver_Make (Version listedPlugin) of
        Inl err \<Rightarrow> Inl err
      | Inr listedVersion \<Rightarrow>
          (case semver_Make (Version plugin) of
             Inl err \<Rightarrow> Inl err
           | Inr requestedVersion \<Rightarrow>
               if Compare listedVersion requestedVersion = 1 then Inr True
               else HasNewerVersionOf rest plugin))"

subsection \<open>Update\<close>

text \<open>
  \<open>for _, installedPlugin := range l\<close> copies each element of the slice into the
  loop variable \<open>installedPlugin\<close> (the elements are structs, not pointers). The frame
  of the loop therefore holds two things: the elements of the slice \<open>l\<close>, which the
  caller shares, and the loop variable. The assignment in the body writes the loop
  variable; no statement of the loop writes an element of \<open>l\<close>. \<open>Update\<close> returns
  nothing: what the caller can observe afterwards is its slice.
\<close>

record Update_frame =
  l_elems :: PluginList
  installedPlugin :: "GrafanaPlugin option"

fun Update_loop :: "PluginList \<Rightarrow> GrafanaPlugin \<Rightarrow> Update_frame \<Rightarrow> Update_frame" where
  "Update_loop [] plugin fr = fr"
| "Update_loop (elem # rest) plugin fr =
     (let fr1 = fr\<lparr>installedPlugin := Some elem\<rparr>
      in if Name elem = Name plugin
         then fr1\<lparr>installedPlugin := Some (elem\<lparr>Version := Version plugin\<rparr>)\<rparr>
         else Update_loop rest plugin fr1)"

definition Update :: "PluginList \<Rightarrow> GrafanaPlugin \<Rightarrow> PluginList" where
  "Update l plugin =
     l_elems (Update_loop l plugin \<lparr>l_elems = l, installedPlugin = None\<rparr>)"

subsection \<open>Sanitize\<close>

fun Sanitize_loop :: "PluginList \<Rightarrow> PluginList \<Rightarrow> PluginList" where
  "Sanitize_loop [] sanitized = sanitized"
| "Sanitize_loop (plugin # rest) sanitized =
     (case semver_Parse (Version plugin) of
        Inl err \<Rightarrow> Sanitize_loop rest sanitized
      | Inr _ \<Rightarrow>
          if \<not> HasSomeVersionOf sanitized plugin
          then Sanitize_loop rest (sanitized @ [plugin])
          else Sanitize_loop rest sanitized)"

definition Sanitize :: "PluginList \<Rightarrow> PluginList" where
  "Sanitize l = Sanitize_loop l []"

subsection \<open>ConsolidatedConcat\<close>

text \<open>
  The result \<open>(PluginList, error)\<close> is \<open>(nil, err)\<close> or \<open>(list, nil)\<close>: a sum. The
  receiver \<open>l\<close> is an argument of the model as it is of the method.
\<close>

fun ConsolidatedConcat_loop :: "PluginList \<Rightarrow> PluginList \<Rightarrow> error + PluginList" where
  "ConsolidatedConcat_loop [] consolidatedPlugins = Inr consolidatedPlugins"
| "ConsolidatedConcat_loop (plugin # rest) consolidatedPlugins =
     (if \<not> HasSomeVersionOf consolidatedPlugins plugin
      then ConsolidatedConcat_loop rest (consolidatedPlugins @ [plugin])
      else case HasNewerVersionOf consolidatedPlugins plugin of
        Inl err \<Rightarrow> Inl err
      | Inr hasNewer \<Rightarrow>
          if hasNewer then ConsolidatedConcat_loop rest consolidatedPlugins
          else if HasExactVersionOf consolidatedPlugins plugin
          then ConsolidatedConcat_loop rest consolidatedPlugins
          else ConsolidatedConcat_loop rest (Update consolidatedPlugins plugin))"

definition ConsolidatedConcat :: "PluginList \<Rightarrow> PluginList \<Rightarrow> error + PluginList" where
  "ConsolidatedConcat l others = ConsolidatedConcat_loop others []"

subsection \<open>Hash\<close>

text \<open>
  Modelled from the spec: \<open>crypto/sha256\<close> and \<open>fmt.Sprintf("%x", ...)\<close> belong to
  the Go standard library, not to the repository. \<open>sha256_Sum\<close> is the SHA-256 function
  of FIPS 180-4 on a list of bytes (padding, message schedule, 64 rounds per 64-byte
  block, the eight state words written big-endian), with the round constants \<open>K256\<close>
  written one row for every eight rounds; \<open>Sprintf_x\<close> writes every byte as two
  lowercase hexadecimal digits.
\<close>

type_synonym byte = "8 word"
type_synonym u32 = "32 word"
type_synonym sha_state = "u32 \<times> u32 \<times> u32 \<times> u32 \<times> u32 \<times> u32 \<times> u32 \<times> u32"

definition K256 :: "u32 list" where
  "K256 =
       [0x428a2f98, 0x71374491, 0xb5c0fbcf, 0xe9b5dba5, 0x3956c25b, 0x59f111f1, 0x923f82a4, 0xab1c5ed5]
     @ [0xd807aa98, 0x12835b01, 0x243185be, 0x550c7dc3, 0x72be5d74, 0x80deb1fe, 0x9bdc06a7, 0xc19bf174]
     @ [0xe49b69c1, 0xefbe4786, 0x0fc19dc6, 0x240ca1cc, 0x2de92c6f, 0x4a7484aa, 0x5cb0a9dc, 0x76f988da]
     @ [0x983e5152, 0xa831c66d, 0xb00327c8, 0xbf597fc7, 0xc6e00bf3, 0xd5a79147, 0x06ca6351, 0x14292967]
     @ [0x27b70a85, 0x2e1b2138, 0x4d2c6dfc, 0x53380d13, 0x650a7354, 0x766a0abb, 0x81c2c92e, 0x92722c85]
     @ [0xa2bfe8a1, 0xa81a664b, 0xc24b8b70, 0xc76c51a3, 0xd192e819, 0xd6990624, 0xf40e3585, 0x106aa070]
     @ [0x19a4c116, 0x1e376c08, 0x2748774c, 0x34b0bcb5, 0x391c0cb3, 0x4ed8aa4a, 0x5b9cca4f, 0x682e6ff3]
     @ [0x748f82ee, 0x78a5636f, 0x84c87814, 0x8cc70208, 0x90befffa, 0xa4506ceb, 0xbef9a3f7, 0xc67178f2]"

definition H256_init :: sha_state where
  "H256_init =
    (0x6a09e667, 0xbb67ae85, 0x3c6ef372, 0xa54ff53a, 0x510e527f, 0x9b05688c, 0x1f83d9ab, 0x5be0cd19)"

definition Ch :: "u32 \<Rightarrow> u32 \<Rightarrow> u32 \<Rightarrow> u32" where
  "Ch x y z = (x AND y) XOR (NOT x AND z)"

definition Maj :: "u32 \<Rightarrow> u32 \<Rightarrow> u32 \<Rightarrow> u32" where
  "Maj x y z = (x AND y) XOR (x AND z) XOR (y AND z)"

definition bsig0 :: "u32 \<Rightarrow> u32" where
  "bsig0 x = word_rotr 2 x XOR word_rotr 13 x XOR word_rotr 22 x"

definition bsig1 :: "u32 \<Rightarrow> u32" where
  "bsig1 x = word_rotr 6 x XOR word_rotr 11 x XOR word_rotr 25 x"

definition ssig0 :: "u32 \<Rightarrow> u32" where
  "ssig0 x = word_rotr 7 x XOR word_rotr 18 x XOR drop_bit 3 x"

definition ssig1 :: "u32 \<Rightarrow> u32" where
  "ssig1 x = word_rotr 17 x XOR word_rotr 19 x XOR drop_bit 10 x"

fun be_words :: "byte list \<Rightarrow> u32 list" where
  "be_words (b0 # b1 # b2 # b3 # rest) =
     (push_bit 24 (ucast b0) OR push_bit 16 (ucast b1) OR push_bit 8 (ucast b2) OR ucast b3)
       # be_words rest"
| "be_words _ = []"

definition be_bytes :: "u32 \<Rightarrow> byte list" where
  "be_bytes w = [ucast (drop_bit 24 w), ucast (drop_bit 16 w), ucast (drop_bit 8 w), ucast w]"

fun schedule :: "nat \<Rightarrow> u32 list \<Rightarrow> u32 list" where
  "schedule 0 w = w"
| "schedule (Suc n) w =
     (let t = length w
      in schedule n
           (w @ [ssig1 (w ! (t - 2)) + w ! (t - 7) + ssig0 (w ! (t - 15)) + w ! (t - 16)]))"

fun sha_round :: "sha_state \<Rightarrow> u32 \<times> u32 \<Rightarrow> sha_state" where
  "sha_round (a, b, c, d, e, f, g, h) (k, w) =
     (let t1 = h + bsig1 e + Ch e f g + k + w;
          t2 = bsig0 a + Maj a b c
      in (t1 + t2, a, b, c, d + t1, e, f, g))"

fun sha_add :: "sha_state \<Rightarrow> sha_state \<Rightarrow> sha_state" where
  "sha_add (a, b, c, d, e, f, g, h) (a', b', c', d', e', f', g', h') =
     (a + a', b + b', c + c', d + d', e + e', f + f', g + g', h + h')"

definition sha_block :: "sha_state \<Rightarrow> byte list \<Rightarrow> sha_state" where
  "sha_block st blk = sha_add st (foldl sha_round st (zip K256 (schedule 48 (be_words blk))))"

definition sha_pad :: "byte list \<Rightarrow> byte list" where
  "sha_pad m =
     m @ [0x80] @ replicate ((119 - length m mod 64) mod 64) 0
       @ map (\<lambda>i. ucast (drop_bit (8 * i) (word_of_nat (8 * length m) :: 64 word)))
           [7, 6, 5, 4, 3, 2, 1, 0]"

fun sha_chunks :: "nat \<Rightarrow> byte list \<Rightarrow> byte list list" where
  "sha_chunks 0 bs = []"
| "sha_chunks (Suc n) bs = take 64 bs # sha_chunks n (drop 64 bs)"

fun sha_digest :: "sha_state \<Rightarrow> byte list" where
  "sha_digest (a, b, c, d, e, f, g, h) =
     be_bytes a @ be_bytes b @ be_bytes c @ be_bytes d
       @ be_bytes e @ be_bytes f @ be_bytes g @ be_bytes h"

definition sha256_Sum :: "byte list \<Rightarrow> byte list" where
  "sha256_Sum m =
     (let p = sha_pad m
      in sha_digest (foldl sha_block H256_init (sha_chunks (length p div 64) p)))"

definition hexdigits :: string where
  "hexdigits = ''0123456789abcdef''"

definition Sprintf_x :: "byte list \<Rightarrow> string" where
  "Sprintf_x bs =
     concat (map (\<lambda>b. [hexdigits ! (unat b div 16), hexdigits ! (unat b mod 16)]) bs)"

text \<open>
  The \<open>strings.Builder\<close> of \<open>Hash\<close> is the string written so far; the loop writes the
  name, then the version, of every plugin.
\<close>

fun Hash_loop :: "PluginList \<Rightarrow> string \<Rightarrow> string" where
  "Hash_loop [] sb = sb"
| "Hash_loop (plugin # rest) sb = Hash_loop rest ((sb @ Name plugin) @ Version plugin)"

definition Hash :: "PluginList \<Rightarrow> string" where
  "Hash l = Sprintf_x (sha256_Sum (map of_char (Hash_loop l [])))"

subsection \<open>Predicates of the properties\<close>

text \<open>
  A version string parses when \<open>semver.Parse\<close> returns no error. A listed version is
  newer than a requested one when both parse and \<open>Compare\<close> returns \<open>1\<close>, the test of
  \<open>HasNewerVersionOf\<close>.
\<close>

definition parses :: "string \<Rightarrow> bool" where
  "parses v = (case semver_Parse v of Inl _ \<Rightarrow> False | Inr _ \<Rightarrow> True)"

definition newer :: "string \<Rightarrow> string \<Rightarrow> bool" where
  "newer listed requested =
     (case semver_Parse listed of
        Inl _ \<Rightarrow> False
      | Inr lv \<Rightarrow> (case semver_Parse requested of
                    Inl _ \<Rightarrow> False
                  | Inr rv \<Rightarrow> Compare lv rv = 1))"

text \<open>
  Entry \<open>i\<close> of \<open>l\<close> is the first one of its name among the entries whose version
  parses.
\<close>

definition kept :: "PluginList \<Rightarrow> nat \<Rightarrow> bool" where
  "kept l i =
     (parses (Version (l ! i)) \<and>
      (\<forall>j \<in> {0..<i}. parses (Version (l ! j)) \<longrightarrow> Name (l ! j) \<noteq> Name (l ! i)))"



section \<open>Auxiliary facts\<close>

subsection \<open>Parsing\<close>

lemma parses_Inl: "semver_Parse v = Inl e \<Longrightarrow> \<not> parses v"
  by (simp add: parses_def)

lemma parses_Inr: "semver_Parse v = Inr x \<Longrightarrow> parses v"
  by (simp add: parses_def)

lemma not_parses_iff: "\<not> parses v \<longleftrightarrow> (\<exists>e. semver_Parse v = Inl e)"
  by (cases "semver_Parse v") (simp_all add: parses_def)

lemmas semver_eval = semver_Make_def semver_Parse_def parse_number_def ParseUint_def
  containsOnly_def hasLeadingZeroes_def numbers_def digit_val_def numeral_3_eq_3

lemma Parse_1_0_0:
  "semver_Parse ''1.0.0'' = Inr \<lparr>Major = 1, Minor = 0, Patch = 0, Pre = [], Build = []\<rparr>"
  by (simp add: semver_eval)

lemma Parse_2_0_0:
  "semver_Parse ''2.0.0'' = Inr \<lparr>Major = 2, Minor = 0, Patch = 0, Pre = [], Build = []\<rparr>"
  by (simp add: semver_eval)

lemma Parse_1_5_0:
  "semver_Parse ''1.5.0'' = Inr \<lparr>Major = 1, Minor = 5, Patch = 0, Pre = [], Build = []\<rparr>"
  by (simp add: semver_eval)

lemma Parse_not_a_version: "semver_Parse ''not-a-version'' = Inl NoMajorMinorPatch"
  by (simp add: semver_eval)

lemmas Parse_examples = Parse_1_0_0 Parse_2_0_0 Parse_1_5_0 Parse_not_a_version

lemmas list_eval = semver_Make_def Parse_examples Compare_def parses_def newer_def

subsection \<open>Update writes the loop variable only\<close>

lemma Update_loop_l_elems: "l_elems (Update_loop xs plugin fr) = l_elems fr"
  by (induction xs arbitrary: fr) (simp_all add: Let_def)

lemma Update_unchanged: "Update l plugin = l"
  by (simp add: Update_def Update_loop_l_elems)

subsection \<open>Membership queries\<close>

lemma HasSomeVersionOf_iff:
  "HasSomeVersionOf l plugin \<longleftrightarrow> (\<exists>x \<in> set l. Name x = Name plugin)"
  by (induction l) auto

lemma in_names_iff: "n \<in> Name ` set l \<longleftrightarrow> (\<exists>x \<in> set l. Name x = n)"
  by (simp only: image_iff Bex_def) metis

lemma HasExactVersionOf_iff:
  "HasExactVersionOf l plugin \<longleftrightarrow>
     (\<exists>x \<in> set l. Name x = Name plugin \<and> Version x = Version plugin)"
  by (induction l) auto

lemma HasNewerVersionOf_no_match:
  "\<forall>x \<in> set l. Name x \<noteq> Name plugin \<Longrightarrow> HasNewerVersionOf l plugin = Inr False"
  by (induction l) simp_all

lemma HasNewerVersionOf_requested_bad:
  "HasSomeVersionOf l plugin \<Longrightarrow> \<not> parses (Version plugin) \<Longrightarrow>
     \<exists>err. HasNewerVersionOf l plugin = Inl err"
  by (induction l) (auto simp: semver_Make_def not_parses_iff split: sum.splits)

lemma HasNewerVersionOf_listed_bad:
  "Name x = Name plugin \<Longrightarrow> \<not> parses (Version x) \<Longrightarrow>
   \<forall>y \<in> set pre. Name y = Name plugin \<longrightarrow> \<not> newer (Version y) (Version plugin) \<Longrightarrow>
     \<exists>err. HasNewerVersionOf (pre @ x # post) plugin = Inl err"
  by (induction pre) (auto simp: semver_Make_def not_parses_iff newer_def split: sum.splits)

lemma HasNewerVersionOf_all_parse:
  "parses (Version plugin) \<Longrightarrow>
   \<forall>x \<in> set l. Name x = Name plugin \<longrightarrow> parses (Version x) \<Longrightarrow>
     HasNewerVersionOf l plugin =
       Inr (\<exists>x \<in> set l. Name x = Name plugin \<and> newer (Version x) (Version plugin))"
  by (induction l) (auto simp: semver_Make_def parses_def newer_def split: sum.splits)


subsection \<open>Sanitize, one entry at a time\<close>

lemma Sanitize_loop_append:
  "Sanitize_loop (xs @ ys) acc = Sanitize_loop ys (Sanitize_loop xs acc)"
  by (induction xs arbitrary: acc) (simp_all split: sum.splits)

lemma Sanitize_snoc:
  "Sanitize (l @ [p]) =
     (if parses (Version p) \<and> Name p \<notin> Name ` set (Sanitize l)
      then Sanitize l @ [p] else Sanitize l)"
  by (simp add: Sanitize_def Sanitize_loop_append parses_def HasSomeVersionOf_iff in_names_iff
           split: sum.splits)

lemma Sanitize_Nil: "Sanitize [] = []"
  by (simp add: Sanitize_def)

lemma Sanitize_names:
  "Name ` set (Sanitize l) = Name ` {x \<in> set l. parses (Version x)}"
  by (induction l rule: rev_induct) (auto simp: Sanitize_Nil Sanitize_snoc)

lemma Sanitize_subset: "set (Sanitize l) \<subseteq> {x \<in> set l. parses (Version x)}"
  by (induction l rule: rev_induct) (auto simp: Sanitize_Nil Sanitize_snoc)

lemma Sanitize_distinct: "distinct (map Name (Sanitize l))"
  by (induction l rule: rev_induct) (auto simp: Sanitize_Nil Sanitize_snoc)

lemma Sanitize_fixed:
  "distinct (map Name l) \<Longrightarrow> \<forall>p \<in> set l. parses (Version p) \<Longrightarrow> Sanitize l = l"
proof (induction l rule: rev_induct)
  case Nil
  show ?case by (simp add: Sanitize_Nil)
next
  case (snoc p l)
  then have "Sanitize l = l" by simp
  moreover from snoc.prems have "parses (Version p)" "Name p \<notin> Name ` set l" by auto
  ultimately show ?case by (simp add: Sanitize_snoc)
qed

lemma kept_append:
  "i < length l \<Longrightarrow> kept (l @ [p]) i = kept l i"
  by (simp add: kept_def nth_append)

lemma kept_last:
  "kept (l @ [p]) (length l) \<longleftrightarrow>
     parses (Version p) \<and> Name p \<notin> Name ` {x \<in> set l. parses (Version x)}"
proof -
  have "(\<forall>j \<in> {0..<length l}. parses (Version (l ! j)) \<longrightarrow> Name (l ! j) \<noteq> Name p)
          \<longleftrightarrow> (\<forall>x \<in> set l. parses (Version x) \<longrightarrow> Name x \<noteq> Name p)"
    by (auto simp: all_set_conv_all_nth)
  moreover have "Name p \<notin> Name ` {x \<in> set l. parses (Version x)}
          \<longleftrightarrow> (\<forall>x \<in> set l. parses (Version x) \<longrightarrow> Name x \<noteq> Name p)"
    by (simp only: image_iff Bex_def mem_Collect_eq) metis
  ultimately show ?thesis
    by (simp add: kept_def nth_append)
qed

lemma Sanitize_indices:
  "Sanitize l = map (\<lambda>i. l ! i) (filter (kept l) [0..<length l])"
proof (induction l rule: rev_induct)
  case Nil
  show ?case by (simp add: Sanitize_Nil)
next
  case (snoc p l)
  have f: "filter (kept (l @ [p])) [0..<length l] = filter (kept l) [0..<length l]"
    by (rule filter_cong) (simp_all add: kept_append)
  have m: "map (\<lambda>i. (l @ [p]) ! i) (filter (kept l) [0..<length l])
            = map (\<lambda>i. l ! i) (filter (kept l) [0..<length l])"
    by (rule map_cong) (simp_all add: nth_append)
  show ?case
    by (simp add: Sanitize_snoc Sanitize_names kept_last f m snoc.IH [symmetric])
qed

subsection \<open>The loop of ConsolidatedConcat\<close>

lemma CC_loop_distinct:
  "ConsolidatedConcat_loop rest acc = Inr r \<Longrightarrow> distinct (map Name acc) \<Longrightarrow>
     distinct (map Name r)"
proof (induction rest arbitrary: acc)
  case Nil
  then show ?case by simp
next
  case (Cons p rest)
  show ?case
  proof (cases "HasSomeVersionOf acc p")
    case False
    with Cons.prems have "ConsolidatedConcat_loop rest (acc @ [p]) = Inr r"
      and "distinct (map Name (acc @ [p]))"
      by (simp_all add: HasSomeVersionOf_iff in_names_iff)
    then show ?thesis by (rule Cons.IH)
  next
    case True
    with Cons.prems(1) have "ConsolidatedConcat_loop rest acc = Inr r"
      by (simp add: Update_unchanged split: sum.splits if_splits)
    then show ?thesis using Cons.prems(2) by (rule Cons.IH)
  qed
qed

lemma CC_loop_subset:
  "ConsolidatedConcat_loop rest acc = Inr r \<Longrightarrow> set r \<subseteq> set acc \<union> set rest"
proof (induction rest arbitrary: acc)
  case Nil
  then show ?case by simp
next
  case (Cons p rest)
  show ?case
  proof (cases "HasSomeVersionOf acc p")
    case False
    with Cons.prems have "ConsolidatedConcat_loop rest (acc @ [p]) = Inr r" by simp
    then have "set r \<subseteq> set (acc @ [p]) \<union> set rest" by (rule Cons.IH)
    then show ?thesis by auto
  next
    case True
    with Cons.prems(1) have "ConsolidatedConcat_loop rest acc = Inr r"
      by (simp add: Update_unchanged split: sum.splits if_splits)
    then have "set r \<subseteq> set acc \<union> set rest" by (rule Cons.IH)
    then show ?thesis by auto
  qed
qed



lemma distinct_names_filter:
  "distinct (map Name r) \<Longrightarrow> length (filter (\<lambda>p. Name p = n) r) \<le> 1"
proof (induction r)
  case Nil
  show ?case by simp
next
  case (Cons x r)
  show ?case
  proof (cases "Name x = n")
    case True
    with Cons.prems have "\<forall>p \<in> set r. Name p \<noteq> n" by (simp add: in_names_iff)
    then have "filter (\<lambda>p. Name p = n) r = []" by (simp add: filter_empty_conv)
    with True show ?thesis by simp
  next
    case False
    with Cons show ?thesis by simp
  qed
qed

subsection \<open>Hash\<close>

lemma Hash_loop_concat:
  "Hash_loop l sb = sb @ concat (map (\<lambda>p. Name p @ Version p) l)"
  by (induction l arbitrary: sb) simp_all

lemma length_be_bytes: "length (be_bytes w) = 4"
  by (simp add: be_bytes_def)

lemma length_sha_digest: "length (sha_digest st) = 32"
  by (cases st rule: sha_digest.cases) (simp add: length_be_bytes)

lemma length_sha256_Sum: "length (sha256_Sum m) = 32"
  by (simp add: sha256_Sum_def Let_def length_sha_digest)

lemma length_Sprintf_x: "length (Sprintf_x bs) = 2 * length bs"
  by (induction bs) (simp_all add: Sprintf_x_def)

lemma length_hexdigits: "length hexdigits = 16"
  by (simp add: hexdigits_def)

lemma set_Sprintf_x: "set (Sprintf_x bs) \<subseteq> set hexdigits"
proof -
  have "hexdigits ! (n mod 16) \<in> set hexdigits" for n
    by (rule nth_mem) (simp add: length_hexdigits)
  moreover have "hexdigits ! (unat b div 16) \<in> set hexdigits" for b :: byte
  proof (rule nth_mem)
    have "unat b < 256" using unsigned_less [of b, where ?'a = nat] by simp
    then show "unat b div 16 < length hexdigits" by (simp add: length_hexdigits)
  qed
  ultimately show ?thesis by (auto simp: Sprintf_x_def)
qed

lemma plugin_list_eqI:
  "length L1 = length L2 \<Longrightarrow>
   \<forall>i \<in> {0..<length L1}. Name (L1 ! i) = Name (L2 ! i) \<and> Version (L1 ! i) = Version (L2 ! i) \<Longrightarrow>
     L1 = (L2 :: PluginList)"
  by (rule nth_equalityI) simp_all

section \<open>The claims\<close>

subsection \<open>C1: consolidation of increasing versions\<close>

text \<open>
  C1 says that for the incoming list \<open>[("a","1.0.0"), ("a","2.0.0"), ("a","1.5.0")]\<close>
  \<open>ConsolidatedConcat\<close>, on any receiver, succeeds with exactly one entry named \<open>"a"\<close>
  whose version is \<open>"2.0.0"\<close>, the maximum seen. The code succeeds with exactly one
  entry named \<open>"a"\<close>, but its version is \<open>"1.0.0"\<close>: for \<open>"2.0.0"\<close> the loop reaches the
  call of \<open>Update\<close>, and \<open>Update\<close> writes its loop variable, not the list.
\<close>

theorem ConsolidatedConcat_increasing_keeps_first:
  "ConsolidatedConcat l
     [\<lparr>Name = ''a'', Version = ''1.0.0''\<rparr>, \<lparr>Name = ''a'', Version = ''2.0.0''\<rparr>,
      \<lparr>Name = ''a'', Version = ''1.5.0''\<rparr>]
   = Inr [\<lparr>Name = ''a'', Version = ''1.0.0''\<rparr>]"
  by (simp add: ConsolidatedConcat_def Update_def Let_def list_eval)

subsection \<open>C2: Update\<close>

text \<open>
  C2 says that \<open>Update(e)\<close> sets the version of the first entry named like \<open>e\<close> to the
  version of \<open>e\<close>, and is a no-op when no entry has that name. On the list
  \<open>[("a","1.0.0")]\<close> with \<open>e = ("a","2.0.0")\<close> the code leaves the list as it was: the
  assignment goes to the copy of the element held by the range variable.
\<close>

theorem Update_example_unchanged:
  "Update [\<lparr>Name = ''a'', Version = ''1.0.0''\<rparr>] \<lparr>Name = ''a'', Version = ''2.0.0''\<rparr>
     = [\<lparr>Name = ''a'', Version = ''1.0.0''\<rparr>]"
  by (simp add: Update_def Let_def)

subsection \<open>C3: unparsable versions in ConsolidatedConcat\<close>




subsection \<open>C4: HasNewerVersionOf\<close>

text \<open>
  C4 as stated (an error whenever the version of \<open>e\<close> or of any listed entry named like
  \<open>e\<close> does not parse) does not hold: with no entry of that name nothing is parsed, and
  the scan returns \<open>true\<close> at the first newer entry without looking at the entries after
  it.
\<close>

theorem HasNewerVersionOf_unparsable_without_error:
  "\<not> parses ''not-a-version'' \<and>
   HasNewerVersionOf [] \<lparr>Name = ''a'', Version = ''not-a-version''\<rparr> = Inr False \<and>
   HasNewerVersionOf
     [\<lparr>Name = ''a'', Version = ''2.0.0''\<rparr>, \<lparr>Name = ''a'', Version = ''not-a-version''\<rparr>]
     \<lparr>Name = ''a'', Version = ''1.0.0''\<rparr> = Inr True"
  by (simp add: list_eval)

text \<open>
  C4, amended: \<open>HasNewerVersionOf(e)\<close> on \<open>L\<close> returns an error whenever \<open>L\<close> has an entry
  named like \<open>e\<close> and the version of \<open>e\<close> does not parse, and whenever a listed entry named
  like \<open>e\<close> does not parse and no entry named like \<open>e\<close> before it in \<open>L\<close> is newer than
  \<open>e\<close>; when the version of \<open>e\<close> and the versions of all listed entries named like \<open>e\<close>
  parse, it returns \<open>true\<close> exactly when some listed entry named like \<open>e\<close> is strictly
  greater than \<open>e\<close>, and \<open>false\<close> otherwise.
\<close>

theorem HasNewerVersionOf_scan:
  "(HasSomeVersionOf L e \<and> \<not> parses (Version e) \<longrightarrow> (\<exists>err. HasNewerVersionOf L e = Inl err))
   \<and> (\<forall>pre x post.
         L = pre @ x # post \<and> Name x = Name e \<and> \<not> parses (Version x) \<and>
         (\<forall>y \<in> set pre. Name y = Name e \<longrightarrow> \<not> newer (Version y) (Version e))
         \<longrightarrow> (\<exists>err. HasNewerVersionOf L e = Inl err))
   \<and> (parses (Version e) \<and> (\<forall>x \<in> set L. Name x = Name e \<longrightarrow> parses (Version x))
        \<longrightarrow> HasNewerVersionOf L e
              = Inr (\<exists>x \<in> set L. Name x = Name e \<and> newer (Version x) (Version e)))"
  using HasNewerVersionOf_requested_bad [of L e] HasNewerVersionOf_all_parse [of e L]
    HasNewerVersionOf_listed_bad [of _ e]
  by blast

theorem HasNewerVersionOf_scan_witness:
  "(\<exists>err. HasNewerVersionOf [\<lparr>Name = ''a'', Version = ''1.0.0''\<rparr>]
            \<lparr>Name = ''a'', Version = ''not-a-version''\<rparr> = Inl err)
   \<and> (\<exists>err. HasNewerVersionOf
              [\<lparr>Name = ''a'', Version = ''1.0.0''\<rparr>, \<lparr>Name = ''a'', Version = ''not-a-version''\<rparr>]
              \<lparr>Name = ''a'', Version = ''1.5.0''\<rparr> = Inl err)
   \<and> HasNewerVersionOf
         [\<lparr>Name = ''a'', Version = ''1.0.0''\<rparr>, \<lparr>Name = ''b'', Version = ''not-a-version''\<rparr>,
          \<lparr>Name = ''a'', Version = ''2.0.0''\<rparr>]
         \<lparr>Name = ''a'', Version = ''1.5.0''\<rparr> = Inr True"
proof -
  let ?a1 = "\<lparr>Name = ''a'', Version = ''1.0.0''\<rparr>"
  let ?a2 = "\<lparr>Name = ''a'', Version = ''2.0.0''\<rparr>"
  let ?a15 = "\<lparr>Name = ''a'', Version = ''1.5.0''\<rparr>"
  let ?abad = "\<lparr>Name = ''a'', Version = ''not-a-version''\<rparr>"
  let ?bbad = "\<lparr>Name = ''b'', Version = ''not-a-version''\<rparr>"
  have 1: "HasSomeVersionOf [?a1] ?abad \<and> \<not> parses (Version ?abad)"
    by (simp add: list_eval)
  have 2: "[?a1, ?abad] = [?a1] @ ?abad # [] \<and> Name ?abad = Name ?a15
            \<and> \<not> parses (Version ?abad)
            \<and> (\<forall>y \<in> set [?a1]. Name y = Name ?a15 \<longrightarrow> \<not> newer (Version y) (Version ?a15))"
    by (simp add: list_eval)
  have 3: "parses (Version ?a15)
            \<and> (\<forall>x \<in> set [?a1, ?bbad, ?a2]. Name x = Name ?a15 \<longrightarrow> parses (Version x))"
    by (simp add: list_eval)
  have 4: "\<exists>x \<in> set [?a1, ?bbad, ?a2]. Name x = Name ?a15 \<and> newer (Version x) (Version ?a15)"
    by (simp add: list_eval)
  from 1 HasNewerVersionOf_scan [of "[?a1]" ?abad]
  have c1: "\<exists>err. HasNewerVersionOf [?a1] ?abad = Inl err" by blast
  from 2 HasNewerVersionOf_scan [of "[?a1, ?abad]" ?a15]
  have c2: "\<exists>err. HasNewerVersionOf [?a1, ?abad] ?a15 = Inl err" by blast
  from 3 HasNewerVersionOf_scan [of "[?a1, ?bbad, ?a2]" ?a15]
  have "HasNewerVersionOf [?a1, ?bbad, ?a2] ?a15
          = Inr (\<exists>x \<in> set [?a1, ?bbad, ?a2]. Name x = Name ?a15 \<and> newer (Version x) (Version ?a15))"
    by blast
  with 4 have c3: "HasNewerVersionOf [?a1, ?bbad, ?a2] ?a15 = Inr True" by simp
  from c1 c2 c3 show ?thesis by blast
qed

subsection \<open>C5: what Sanitize keeps\<close>

text \<open>
  C5: for every list \<open>L\<close>, \<open>Sanitize(L)\<close> has no two entries of the same name, every
  entry of it has a version that parses, and it consists of exactly the entries of \<open>L\<close>
  that are the first of their name among the entries whose version parses, in the order
  of \<open>L\<close>. \<open>Sanitize\<close> has no error result: entries whose version does not parse are
  dropped.
\<close>

theorem Sanitize_invariant:
  "distinct (map Name (Sanitize L))
   \<and> (\<forall>p \<in> set (Sanitize L). parses (Version p))
   \<and> Sanitize L = map (\<lambda>i. L ! i) (filter (kept L) [0..<length L])"
  using Sanitize_distinct [of L] Sanitize_subset [of L] Sanitize_indices [of L] by blast

theorem Sanitize_invariant_witness:
  "Sanitize [\<lparr>Name = ''a'', Version = ''not-a-version''\<rparr>, \<lparr>Name = ''a'', Version = ''1.0.0''\<rparr>,
             \<lparr>Name = ''a'', Version = ''2.0.0''\<rparr>, \<lparr>Name = ''b'', Version = ''1.5.0''\<rparr>]
     = [\<lparr>Name = ''a'', Version = ''1.0.0''\<rparr>, \<lparr>Name = ''b'', Version = ''1.5.0''\<rparr>]
   \<and> parses ''1.0.0'' \<and> parses ''1.5.0''
   \<and> filter (kept [\<lparr>Name = ''a'', Version = ''not-a-version''\<rparr>, \<lparr>Name = ''a'', Version = ''1.0.0''\<rparr>,
             \<lparr>Name = ''a'', Version = ''2.0.0''\<rparr>, \<lparr>Name = ''b'', Version = ''1.5.0''\<rparr>])
        [0..<4] = [1, 3]"
proof -
  let ?L = "[\<lparr>Name = ''a'', Version = ''not-a-version''\<rparr>, \<lparr>Name = ''a'', Version = ''1.0.0''\<rparr>,
             \<lparr>Name = ''a'', Version = ''2.0.0''\<rparr>, \<lparr>Name = ''b'', Version = ''1.5.0''\<rparr>]"
  have s: "Sanitize ?L = [\<lparr>Name = ''a'', Version = ''1.0.0''\<rparr>, \<lparr>Name = ''b'', Version = ''1.5.0''\<rparr>]"
    by (simp add: Sanitize_def Parse_examples)
  have u: "[0..<4] = [0, 1, 2, 3]" by (simp add: upt_rec)
  have k: "filter (kept ?L) [0..<4] = [1, 3]"
    unfolding u by (simp add: kept_def list_eval atLeastLessThan_def lessThan_def atLeast_def
        numeral_2_eq_2 numeral_3_eq_3 less_Suc_eq)
  from Sanitize_invariant [of ?L] have "\<forall>p \<in> set (Sanitize ?L). parses (Version p)" by blast
  then have "\<forall>p \<in> set [\<lparr>Name = ''a'', Version = ''1.0.0''\<rparr>,
                      \<lparr>Name = ''b'', Version = ''1.5.0''\<rparr>]. parses (Version p)"
    by (simp only: s)
  then have a: "parses ''1.0.0'' \<and> parses ''1.5.0''" by simp
  from s a k show ?thesis by blast
qed

subsection \<open>C6: Sanitize is idempotent\<close>

text \<open>
  C6: for every list \<open>L\<close>, \<open>Sanitize(Sanitize(L))\<close> is \<open>Sanitize(L)\<close>, the same entries in
  the same order.
\<close>

theorem Sanitize_idempotent: "Sanitize (Sanitize L) = Sanitize L"
proof (rule Sanitize_fixed)
  show "distinct (map Name (Sanitize L))" by (rule Sanitize_distinct)
  show "\<forall>p \<in> set (Sanitize L). parses (Version p)" using Sanitize_subset [of L] by blast
qed

subsection \<open>C7: one entry per name after ConsolidatedConcat\<close>

text \<open>
  C7: whenever \<open>ConsolidatedConcat\<close> succeeds, its result has at most one entry per name;
  for the incoming list \<open>[("a","1.0.0"), ("a","1.0.0")]\<close> the result is the one entry
  \<open>("a","1.0.0")\<close>.
\<close>

theorem ConsolidatedConcat_one_entry_per_name:
  "(ConsolidatedConcat l others = Inr r \<longrightarrow>
      distinct (map Name r) \<and> (\<forall>n. length (filter (\<lambda>p. Name p = n) r) \<le> 1))
   \<and> ConsolidatedConcat l [\<lparr>Name = ''a'', Version = ''1.0.0''\<rparr>, \<lparr>Name = ''a'', Version = ''1.0.0''\<rparr>]
       = Inr [\<lparr>Name = ''a'', Version = ''1.0.0''\<rparr>]"
proof -
  have "distinct (map Name r)" if "ConsolidatedConcat l others = Inr r"
    using that CC_loop_distinct [of others "[]" r] by (simp add: ConsolidatedConcat_def)
  moreover have "ConsolidatedConcat l
        [\<lparr>Name = ''a'', Version = ''1.0.0''\<rparr>, \<lparr>Name = ''a'', Version = ''1.0.0''\<rparr>]
      = Inr [\<lparr>Name = ''a'', Version = ''1.0.0''\<rparr>]"
    by (simp add: ConsolidatedConcat_def list_eval)
  ultimately show ?thesis using distinct_names_filter by blast
qed

theorem ConsolidatedConcat_one_entry_per_name_witness:
  "ConsolidatedConcat []
     [\<lparr>Name = ''a'', Version = ''2.0.0''\<rparr>, \<lparr>Name = ''b'', Version = ''1.0.0''\<rparr>,
      \<lparr>Name = ''a'', Version = ''1.0.0''\<rparr>, \<lparr>Name = ''b'', Version = ''1.0.0''\<rparr>]
     = Inr [\<lparr>Name = ''a'', Version = ''2.0.0''\<rparr>, \<lparr>Name = ''b'', Version = ''1.0.0''\<rparr>]
   \<and> distinct (map Name [\<lparr>Name = ''a'', Version = ''2.0.0''\<rparr>, \<lparr>Name = ''b'', Version = ''1.0.0''\<rparr>])
   \<and> length (filter (\<lambda>p. Name p = ''a'')
        [\<lparr>Name = ''a'', Version = ''2.0.0''\<rparr>, \<lparr>Name = ''b'', Version = ''1.0.0''\<rparr>]) \<le> 1"
proof -
  let ?I = "[\<lparr>Name = ''a'', Version = ''2.0.0''\<rparr>, \<lparr>Name = ''b'', Version = ''1.0.0''\<rparr>,
             \<lparr>Name = ''a'', Version = ''1.0.0''\<rparr>, \<lparr>Name = ''b'', Version = ''1.0.0''\<rparr>]"
  let ?r = "[\<lparr>Name = ''a'', Version = ''2.0.0''\<rparr>, \<lparr>Name = ''b'', Version = ''1.0.0''\<rparr>]"
  have h: "ConsolidatedConcat [] ?I = Inr ?r"
    by (simp add: ConsolidatedConcat_def list_eval)
  from h ConsolidatedConcat_one_entry_per_name [of "[]" ?I ?r] show ?thesis by blast
qed

subsection \<open>C8: the receiver of ConsolidatedConcat\<close>

text \<open>
  C8: for all receivers \<open>L1\<close> and \<open>L2\<close> and every incoming list \<open>I\<close>, \<open>ConsolidatedConcat\<close>
  on \<open>L1\<close> and on \<open>L2\<close> gives the same outcome, the same list or the same error; every
  entry of a result is an entry of \<open>I\<close>, so none is there for being in the receiver.
\<close>

theorem ConsolidatedConcat_receiver_independent:
  "ConsolidatedConcat L1 I = ConsolidatedConcat L2 I
   \<and> (ConsolidatedConcat L1 I = Inr r \<longrightarrow> set r \<subseteq> set I)"
  using CC_loop_subset [of I "[]" r] by (simp add: ConsolidatedConcat_def)

theorem ConsolidatedConcat_receiver_independent_witness:
  "ConsolidatedConcat [\<lparr>Name = ''z'', Version = ''2.0.0''\<rparr>] [\<lparr>Name = ''a'', Version = ''1.0.0''\<rparr>]
     = Inr [\<lparr>Name = ''a'', Version = ''1.0.0''\<rparr>]
   \<and> ConsolidatedConcat [] [\<lparr>Name = ''a'', Version = ''1.0.0''\<rparr>]
     = Inr [\<lparr>Name = ''a'', Version = ''1.0.0''\<rparr>]
   \<and> set [\<lparr>Name = ''a'', Version = ''1.0.0''\<rparr>] \<subseteq> set [\<lparr>Name = ''a'', Version = ''1.0.0''\<rparr>]"
proof -
  let ?z = "[\<lparr>Name = ''z'', Version = ''2.0.0''\<rparr>]"
  let ?a = "[\<lparr>Name = ''a'', Version = ''1.0.0''\<rparr>]"
  have h: "ConsolidatedConcat ?z ?a = Inr ?a"
    by (simp add: ConsolidatedConcat_def)
  from h ConsolidatedConcat_receiver_independent [of ?z ?a "[]" ?a] show ?thesis by simp
qed

subsection \<open>C9: the fingerprint\<close>

text \<open>
  C9: for every list \<open>L\<close>, \<open>Hash(L)\<close> is the SHA-256 digest, written as 64 lowercase
  hexadecimal digits, of the names and versions of the entries of \<open>L\<close> concatenated in
  order, each name followed by its version, with nothing in between; two lists with the
  same entries in the same order have the same hash.
\<close>

theorem Hash_is_hex_sha256:
  "Hash L = Sprintf_x (sha256_Sum (map of_char (concat (map (\<lambda>p. Name p @ Version p) L))))
   \<and> length (Hash L) = 64
   \<and> set (Hash L) \<subseteq> set ''0123456789abcdef''
   \<and> (length L = length L' \<and>
       (\<forall>i \<in> {0..<length L}. Name (L ! i) = Name (L' ! i) \<and> Version (L ! i) = Version (L' ! i))
       \<longrightarrow> Hash L = Hash L')"
proof -
  have "Hash L = Sprintf_x (sha256_Sum (map of_char (concat (map (\<lambda>p. Name p @ Version p) L))))"
    by (simp add: Hash_def Hash_loop_concat)
  moreover have "length (Hash L) = 64"
    by (simp add: Hash_def length_Sprintf_x length_sha256_Sum)
  moreover have "set (Hash L) \<subseteq> set ''0123456789abcdef''"
    using set_Sprintf_x [of "sha256_Sum (map of_char (Hash_loop L []))"]
    by (simp only: Hash_def hexdigits_def)
  moreover have "Hash L = Hash L'"
    if "length L = length L'"
      "\<forall>i \<in> {0..<length L}. Name (L ! i) = Name (L' ! i) \<and> Version (L ! i) = Version (L' ! i)"
    using plugin_list_eqI [OF that] by simp
  ultimately show ?thesis by blast
qed

text \<open>
  An instance: the test vector of FIPS 180-4 for the message \<open>abc\<close>, here the name
  \<open>ab\<close> followed by the version \<open>c\<close>.
\<close>

theorem Hash_is_hex_sha256_witness:
  "Hash [\<lparr>Name = ''ab'', Version = ''c''\<rparr>]
     = ''ba7816bf8f01cfea414140de5dae2223b00361a396177a9cb410ff61f20015ad''
   \<and> length (Hash [\<lparr>Name = ''ab'', Version = ''c''\<rparr>]) = 64
   \<and> Hash [\<lparr>Name = ''ab'', Version = ''c''\<rparr>] = Hash ([] @ [\<lparr>Name = ''ab'', Version = ''c''\<rparr>])"
proof -
  let ?L = "[\<lparr>Name = ''ab'', Version = ''c''\<rparr>]"
  have v: "Sprintf_x (sha256_Sum (map of_char ''abc''))
             = ''ba7816bf8f01cfea414140de5dae2223b00361a396177a9cb410ff61f20015ad''"
    by code_simp
  have c: "concat (map (\<lambda>p. Name p @ Version p) ?L) = ''abc''"
    by simp
  have h: "length ?L = length ([] @ ?L) \<and>
           (\<forall>i \<in> {0..<length ?L}. Name (?L ! i) = Name (([] @ ?L) ! i)
                                  \<and> Version (?L ! i) = Version (([] @ ?L) ! i))"
    by simp
  note t = Hash_is_hex_sha256 [of ?L "[] @ ?L"]
  from t have "Hash ?L
      = Sprintf_x (sha256_Sum (map of_char (concat (map (\<lambda>p. Name p @ Version p) ?L))))"
    by (rule conjunct1)
  then have 1: "Hash ?L = ''ba7816bf8f01cfea414140de5dae2223b00361a396177a9cb410ff61f20015ad''"
    by (simp only: c v)
  from t have 2: "length (Hash ?L) = 64"
    by (rule conjunct2 [THEN conjunct1])
  from t have "length ?L = length ([] @ ?L) \<and>
           (\<forall>i \<in> {0..<length ?L}. Name (?L ! i) = Name (([] @ ?L) ! i)
                                  \<and> Version (?L ! i) = Version (([] @ ?L) ! i))
         \<longrightarrow> Hash ?L = Hash ([] @ ?L)"
    by (rule conjunct2 [THEN conjunct2, THEN conjunct2])
  from this h have 3: "Hash ?L = Hash ([] @ ?L)" by (rule mp)
  from 1 2 3 show ?thesis by (intro conjI)
qed

subsection \<open>C10: HasNewerVersionOf without an entry of the name\<close>

text \<open>
  C10: when no entry of \<open>L\<close> has the name of \<open>e\<close>, \<open>HasNewerVersionOf(e)\<close> returns \<open>false\<close>
  and no error, also when the version of \<open>e\<close>, or of an entry of \<open>L\<close>, does not parse.
\<close>

theorem HasNewerVersionOf_no_match_false:
  "\<forall>x \<in> set L. Name x \<noteq> Name e \<Longrightarrow> HasNewerVersionOf L e = Inr False"
  by (rule HasNewerVersionOf_no_match)

theorem HasNewerVersionOf_no_match_false_witness:
  "\<not> HasSomeVersionOf
        [\<lparr>Name = ''b'', Version = ''not-a-version''\<rparr>, \<lparr>Name = ''c'', Version = ''2.0.0''\<rparr>]
        \<lparr>Name = ''a'', Version = ''not-a-version''\<rparr>
   \<and> \<not> parses ''not-a-version''
   \<and> HasNewerVersionOf
        [\<lparr>Name = ''b'', Version = ''not-a-version''\<rparr>, \<lparr>Name = ''c'', Version = ''2.0.0''\<rparr>]
        \<lparr>Name = ''a'', Version = ''not-a-version''\<rparr> = Inr False"
proof -
  have h: "\<forall>x \<in> set [\<lparr>Name = ''b'', Version = ''not-a-version''\<rparr>,
                       \<lparr>Name = ''c'', Version = ''2.0.0''\<rparr>].
             Name x \<noteq> Name \<lparr>Name = ''a'', Version = ''not-a-version''\<rparr>"
    by simp
  have n: "\<not> HasSomeVersionOf
        [\<lparr>Name = ''b'', Version = ''not-a-version''\<rparr>, \<lparr>Name = ''c'', Version = ''2.0.0''\<rparr>]
        \<lparr>Name = ''a'', Version = ''not-a-version''\<rparr>"
    by simp
  have p: "\<not> parses ''not-a-version''" by (simp add: list_eval)
  from n p HasNewerVersionOf_no_match_false [OF h] show ?thesis by (intro conjI)
qed

end
